theory Spec2Isabelle
  imports Main "HOL-Library.Word"
begin

unbundle bit_operations_syntax

section \<open>Outcomes of a Go function\<close>

text \<open>
  A Go function of the repository either returns a value, returns an error value, or
  panics.  The error values are the ones the source builds with \<open>fmt.Errorf\<close>,
  \<open>errors.New\<close> and \<open>errors.Errorf\<close>, one constructor for each place; errors handed up
  from a library call carry the library's message.  The spec's taxonomy calls the
  errors of the two payload parsers \<open>MalformedPayload\<close> and the error of a failed
  migration \<open>MigrationError\<close>; the code has no such types, only these values.
\<close>

datatype error =
    UnexpectedPayloadLength nat
  | UnexpectedRawtxwithfeeLength
  | CouldNotDeserialize string
  | ErrorDuringBtcDecode string
  | PushedDataError string
  | UnexpectedCount nat
  | ErrorParsingCoinbase error
  | HeightNotFound
  | StatError string
  | OpenError string
  | CouldNotInitialize error
  | CouldNotCreateTable string
  | CouldNotFillConfig
  | CannotMigrateFrom int
  | CouldNotMigrate error

datatype panic =
    IndexOutOfRange nat nat
  | ScanPanic string

datatype 'a outcome = Returned 'a | Failed error | Panicked panic

section \<open>Data model\<close>

type_synonym byte = "8 word"
type_synonym Time = int
type_synonym Hash32 = "byte list"

text \<open>\<open>types.Transaction\<close> of \<open>src/types/transaction.go\<close>.\<close>

record Transaction =
  TxID :: Hash32
  FirstSeen :: Time
  LastRemoved :: "Time option"
  Fee :: "64 word"
  Weight :: int
  BlockHeight :: "32 word"
  IndexInBlock :: "32 word"

text \<open>
  \<open>types.Block\<close>, with the fields that the composite literal at the end of
  \<open>parseBlock\<close> fills.  (\<open>BlockFirstSeen\<close> is the field \<open>FirstSeen\<close>; the name is
  taken by the transaction record.)
\<close>

record Block =
  BlockFirstSeen :: Time
  EncodedTime :: Time
  Hash :: Hash32
  Parent :: Hash32
  TxIDs :: "Hash32 list"
  Height :: "32 word"
  IsBest :: bool

text \<open>The structs of the wire package that the parsers read.\<close>

record OutPoint =
  PrevHash :: "byte list"
  PrevIndex :: "32 word"

record TxIn =
  PreviousOutPoint :: OutPoint
  SignatureScript :: "byte list"
  Witness :: "byte list list"
  Sequence :: "32 word"

record TxOut =
  Value :: "64 word"
  PkScript :: "byte list"

record MsgTx =
  Version :: "32 word"
  TxIns :: "TxIn list"
  TxOuts :: "TxOut list"
  LockTime :: "32 word"

record BlockHeader =
  HeaderVersion :: "32 word"
  PrevBlock :: "byte list"
  MerkleRoot :: "byte list"
  Timestamp :: Time
  Bits :: "32 word"
  Nonce :: "32 word"

record MsgBlock =
  Header :: BlockHeader
  Transactions :: "MsgTx list"

text \<open>
  A byte slice handed out by \<open>txscript.PushedData\<close>.  The library returns each push
  as a sub-slice of the script it parsed, \<open>script[off : off+n]\<close>, whose capacity runs
  to the end of the script, and \<open>nil\<close> for an \<open>OP_0\<close>.  \<open>Sub off n\<close> is such a view
  of the script; \<open>Own bs\<close> is a slice with a backing array of its own (\<open>nil\<close> is
  \<open>Own []\<close>).
\<close>

datatype slice = Sub nat nat | Own "byte list"

text \<open>
  The calls that leave the repository: \<open>wire.MsgTx.Deserialize\<close>,
  \<open>wire.MsgBlock.BtcDecode\<close>, \<open>MsgTx.TxHash\<close>, \<open>MsgBlock.BlockHash\<close>,
  \<open>MsgTx.SerializeSize\<close>, \<open>MsgTx.SerializeSizeStripped\<close>, \<open>blockchain.IsCoinBaseTx\<close>
  and \<open>txscript.PushedData\<close> of btcd, and \<open>types.NewHashFromArray\<close>.  The parsers
  are modelled over any behaviour of these.
\<close>

record lib =
  Deserialize :: "byte list \<Rightarrow> string + MsgTx"
  BtcDecode :: "byte list \<Rightarrow> string + MsgBlock"
  TxHash :: "MsgTx \<Rightarrow> byte list"
  BlockHash :: "BlockHeader \<Rightarrow> byte list"
  SerializeSize :: "MsgTx \<Rightarrow> int"
  SerializeSizeStripped :: "MsgTx \<Rightarrow> int"
  IsCoinBaseTx :: "MsgTx \<Rightarrow> bool"
  PushedData :: "byte list \<Rightarrow> string + slice list"
  NewHashFromArray :: "byte list \<Rightarrow> Hash32"

section \<open>Little-endian integers\<close>

text \<open>
  \<open>binary.LittleEndian.Uint32\<close> and \<open>Uint64\<close>: a bounds check on the last byte read
  (a panic on a shorter slice, \<open>Inl\<close>), then the bytes shifted into place.
\<close>

definition Uint32 :: "byte list \<Rightarrow> panic + 32 word" where
  "Uint32 b =
     (if length b \<le> 3 then Inl (IndexOutOfRange 3 (length b))
      else Inr (ucast (b ! 0) OR push_bit 8 (ucast (b ! 1))
             OR push_bit 16 (ucast (b ! 2)) OR push_bit 24 (ucast (b ! 3))))"

definition Uint64 :: "byte list \<Rightarrow> panic + 64 word" where
  "Uint64 b =
     (if length b \<le> 7 then Inl (IndexOutOfRange 7 (length b))
      else Inr (ucast (b ! 0) OR push_bit 8 (ucast (b ! 1))
             OR push_bit 16 (ucast (b ! 2)) OR push_bit 24 (ucast (b ! 3))
             OR push_bit 32 (ucast (b ! 4)) OR push_bit 40 (ucast (b ! 5))
             OR push_bit 48 (ucast (b ! 6)) OR push_bit 56 (ucast (b ! 7))))"

text \<open>
  The number a byte string denotes when read little-endian: the reading the spec
  gives to the fee field and to the height push.
\<close>

fun le_nat :: "byte list \<Rightarrow> nat" where
  "le_nat [] = 0"
| "le_nat (b # bs) = unat b + 256 * le_nat bs"

section \<open>parseTransaction\<close>

definition parseTransaction :: "lib \<Rightarrow> Time \<Rightarrow> byte list list \<Rightarrow> Transaction outcome" where
  "parseTransaction L firstSeen payload =
     (if length payload \<noteq> 2 then Failed (UnexpectedPayloadLength (length payload))
      else
        let rawtxwithfee = payload ! 0;
            n = length rawtxwithfee
        in if n \<le> 8 then Failed UnexpectedRawtxwithfeeLength
           else
             let rawtx = take (n - 8) rawtxwithfee;
                 feeBytes = drop (n - 8) rawtxwithfee
             in case Deserialize L rawtx of
                  Inl e \<Rightarrow> Failed (CouldNotDeserialize e)
                | Inr wireTx \<Rightarrow>
                    (case Uint64 feeBytes of
                       Inl p \<Rightarrow> Panicked p
                     | Inr fee \<Rightarrow>
                         Returned \<lparr>TxID = NewHashFromArray L (TxHash L wireTx),
                                   FirstSeen = firstSeen,
                                   LastRemoved = None,
                                   Fee = fee,
                                   Weight = SerializeSizeStripped L wireTx * 3 + SerializeSize L wireTx,
                                   BlockHeight = 0,
                                   IndexInBlock = 0\<rparr>))"

section \<open>parseBlock\<close>

text \<open>
  Go's \<open>len\<close>, the bytes a slice shows, and \<open>append\<close> of one byte, over the script
  that \<open>Sub\<close> slices are views of.  \<open>append\<close> writes in place while the slice is
  shorter than its capacity, and otherwise copies the bytes to a new array.
\<close>

fun slice_bytes :: "byte list \<Rightarrow> slice \<Rightarrow> byte list" where
  "slice_bytes script (Sub off n) = take n (drop off script)"
| "slice_bytes script (Own bs) = bs"

definition slice_len :: "byte list \<Rightarrow> slice \<Rightarrow> nat" where
  "slice_len script s = length (slice_bytes script s)"

fun append_byte :: "byte list \<Rightarrow> slice \<Rightarrow> byte \<Rightarrow> byte list \<times> slice" where
  "append_byte script (Sub off n) v =
     (if off + n < length script then (script[off + n := v], Sub off (Suc n))
      else (script, Own (take n (drop off script) @ [v])))"
| "append_byte script (Own bs) v = (script, Own (bs @ [v]))"

text \<open>The loop \<open>for len(heightLE) < 4 { heightLE = append(heightLE, 0) }\<close>.\<close>

function pad_height :: "byte list \<Rightarrow> slice \<Rightarrow> byte list \<times> slice" where
  "pad_height script heightLE =
     (if slice_len script heightLE < 4
      then pad_height (fst (append_byte script heightLE 0)) (snd (append_byte script heightLE 0))
      else (script, heightLE))"
  by pat_completeness auto
termination
proof (relation "measure (\<lambda>(script, heightLE). 4 - slice_len script heightLE)")
  fix script heightLE
  assume "slice_len script heightLE < 4"
  moreover have "slice_len (fst (append_byte script heightLE 0)) (snd (append_byte script heightLE 0))
      = Suc (slice_len script heightLE)"
    by (cases heightLE) (auto simp: slice_len_def)
  ultimately show "((fst (append_byte script heightLE 0), snd (append_byte script heightLE 0)),
      (script, heightLE)) \<in> measure (\<lambda>(script, heightLE). 4 - slice_len script heightLE)"
    by (simp add: split_beta)
qed simp

declare pad_height.simps [simp del]

text \<open>
  The closure \<open>parseHeight\<close> of \<open>parseBlock\<close>.  Beside the height it returns the
  signature script as the padding loop leaves it.  Go's \<open>int\<close> has 64 bits, so
  \<open>int(height)\<close> is the value of the \<open>uint32\<close>.
\<close>

definition parseHeight :: "lib \<Rightarrow> TxIn \<Rightarrow> (int \<times> byte list) outcome" where
  "parseHeight L txin =
     (case PushedData L (SignatureScript txin) of
        Inl e \<Rightarrow> Failed (PushedDataError e)
      | Inr data \<Rightarrow>
          if length data \<noteq> 2 then Failed (UnexpectedCount (length data))
          else
            let padded = pad_height (SignatureScript txin) (data ! 0)
            in (case Uint32 (slice_bytes (fst padded) (snd padded)) of
                  Inl p \<Rightarrow> Panicked p
                | Inr height \<Rightarrow> Returned (uint height, fst padded)))"

text \<open>
  The loop over \<open>wireBlock.Transactions\<close>, with the variables \<open>height\<close> and
  \<open>txHashes\<close>.  \<open>t.TxHash()\<close> is called after \<open>parseHeight\<close>, on the transaction
  whose first input holds the script as the padding loop left it.
\<close>

fun parseBlock_loop :: "lib \<Rightarrow> MsgTx list \<Rightarrow> int \<Rightarrow> Hash32 list \<Rightarrow> (int \<times> Hash32 list) outcome" where
  "parseBlock_loop L [] height txHashes = Returned (height, txHashes)"
| "parseBlock_loop L (t # ts) height txHashes =
     (if IsCoinBaseTx L t then
        (case TxIns t of
           [] \<Rightarrow> Panicked (IndexOutOfRange 0 0)
         | txin # ins \<Rightarrow>
             (case parseHeight L txin of
                Panicked p \<Rightarrow> Panicked p
              | Failed e \<Rightarrow> Failed (ErrorParsingCoinbase e)
              | Returned r \<Rightarrow>
                  parseBlock_loop L ts (fst r)
                    (txHashes @ [NewHashFromArray L
                       (TxHash L (t\<lparr>TxIns := txin\<lparr>SignatureScript := snd r\<rparr> # ins\<rparr>))])))
      else parseBlock_loop L ts height (txHashes @ [NewHashFromArray L (TxHash L t)]))"

definition parseBlock :: "lib \<Rightarrow> Time \<Rightarrow> byte list list \<Rightarrow> Block outcome" where
  "parseBlock L firstSeen msg =
     (if length msg \<le> 0 then Panicked (IndexOutOfRange 0 (length msg))
      else if length msg \<le> 1 then Panicked (IndexOutOfRange 1 (length msg))
      else
        let rawblock = msg ! 0
        in case BtcDecode L rawblock of
             Inl e \<Rightarrow> Failed (ErrorDuringBtcDecode e)
           | Inr wireBlock \<Rightarrow>
               (case parseBlock_loop L (Transactions wireBlock) (- 1) [] of
                  Panicked p \<Rightarrow> Panicked p
                | Failed e \<Rightarrow> Failed e
                | Returned r \<Rightarrow>
                    if fst r < 0 then Failed HeightNotFound
                    else Returned \<lparr>BlockFirstSeen = firstSeen,
                                   EncodedTime = Timestamp (Header wireBlock),
                                   Hash = NewHashFromArray L (BlockHash L (Header wireBlock)),
                                   Parent = NewHashFromArray L (PrevBlock (Header wireBlock)),
                                   TxIDs = snd r,
                                   Height = word_of_int (fst r),
                                   IsBest = True\<rparr>))"

section \<open>Storage\<close>

text \<open>
  The world \<open>NewStorage\<close> runs in: what \<open>os.Stat\<close> finds at a path, and whether
  \<open>sql.Open\<close> hands out a handle.  A file is an SQLite database, a map from table
  names to rows, or something else.  A cell of a row is a value that \<open>row.Scan\<close>
  converts to an \<open>int\<close>, or one it does not (a \<open>NULL\<close>, a text that is no number).
\<close>

datatype cell = Scans int | NoScan

type_synonym database = "string \<rightharpoonup> cell list list"

datatype dbfile = Sqlite database | NotSqlite

datatype entry = NotExist | StatFails string | Exists dbfile

record world =
  files :: "string \<Rightarrow> entry"
  sqlOpen :: "string \<Rightarrow> string option"

record Storage =
  db :: string

definition currentVersion :: int where
  "currentVersion = 5"

text \<open>\<open>CREATE TABLE\<close> fails on a table that exists, \<open>INSERT\<close> on one that does not.\<close>

definition createTable :: "string \<Rightarrow> database \<Rightarrow> error option \<times> database" where
  "createTable name d =
     (if name \<in> dom d then (Some (CouldNotCreateTable name), d)
      else (None, d(name \<mapsto> [])))"

definition fillConfigTable :: "int \<Rightarrow> database \<Rightarrow> error option \<times> database" where
  "fillConfigTable version d =
     (case d ''config'' of
        None \<Rightarrow> (Some CouldNotFillConfig, d)
      | Some rows \<Rightarrow> (None, d(''config'' \<mapsto> rows @ [[Scans version]])))"

definition initialize :: "int \<Rightarrow> database \<Rightarrow> error option \<times> database" where
  "initialize version d0 =
     (case createTable ''config'' d0 of
        (Some e, d) \<Rightarrow> (Some e, d)
      | (None, d1) \<Rightarrow>
     (case fillConfigTable version d1 of
        (Some e, d) \<Rightarrow> (Some e, d)
      | (None, d2) \<Rightarrow>
     (case createTable ''transaction'' d2 of
        (Some e, d) \<Rightarrow> (Some e, d)
      | (None, d3) \<Rightarrow>
     (case createTable ''block'' d3 of
        (Some e, d) \<Rightarrow> (Some e, d)
      | (None, d4) \<Rightarrow>
     (case createTable ''transaction_block'' d4 of
        (Some e, d) \<Rightarrow> (Some e, d)
      | (None, d5) \<Rightarrow> (None, d5))))))"

text \<open>
  \<open>getVersion\<close>: the first row of \<open>SELECT version FROM config\<close>, scanned into an
  \<open>int\<close>; it panics (\<open>Inl\<close>) with the error of \<open>row.Scan\<close>.
\<close>

definition getVersion :: "dbfile \<Rightarrow> panic + int" where
  "getVersion f =
     (case f of
        NotSqlite \<Rightarrow> Inl (ScanPanic ''file is not a database'')
      | Sqlite d \<Rightarrow>
          (case d ''config'' of
             None \<Rightarrow> Inl (ScanPanic ''no such table: config'')
           | Some [] \<Rightarrow> Inl (ScanPanic ''sql: no rows in result set'')
           | Some ([] # _) \<Rightarrow> Inl (ScanPanic ''no such column: version'')
           | Some ((NoScan # _) # _) \<Rightarrow> Inl (ScanPanic ''sql: Scan error on column index 0'')
           | Some ((Scans version # _) # _) \<Rightarrow> Inr version))"

definition migrate :: "int \<Rightarrow> error option" where
  "migrate fromVersion =
     (if fromVersion = currentVersion then None
      else Some (CannotMigrateFrom fromVersion))"

definition NewStorage :: "world \<Rightarrow> string \<Rightarrow> Storage outcome \<times> world" where
  "NewStorage W path =
     (case files W path of
        StatFails e \<Rightarrow> (Failed (StatError e), W)
      | NotExist \<Rightarrow>
          (case sqlOpen W path of
             Some e \<Rightarrow> (Failed (OpenError e), W)
           | None \<Rightarrow>
               (case initialize currentVersion Map.empty of
                  (Some e, d) \<Rightarrow>
                    (Failed (CouldNotInitialize e), W\<lparr>files := (files W)(path := Exists (Sqlite d))\<rparr>)
                | (None, d) \<Rightarrow>
                    (Returned \<lparr>db = path\<rparr>, W\<lparr>files := (files W)(path := Exists (Sqlite d))\<rparr>)))
      | Exists f \<Rightarrow>
          (case sqlOpen W path of
             Some e \<Rightarrow> (Failed (OpenError e), W)
           | None \<Rightarrow>
               (case getVersion f of
                  Inl p \<Rightarrow> (Panicked p, W)
                | Inr version \<Rightarrow>
                    (case migrate version of
                       Some e \<Rightarrow> (Failed (CouldNotMigrate e), W)
                     | None \<Rightarrow> (Returned \<lparr>db = path\<rparr>, W)))))"

section \<open>A stand-in library and example inputs\<close>

text \<open>
  The theorems below hold for every library \<open>L\<close>.  To run the parsers on concrete
  inputs, \<open>toy\<close> stands in for btcd.  Its \<open>PushedData\<close> reads a script the way
  txscript does (\<open>OP_0\<close> pushes \<open>nil\<close>, \<open>OP_DATA_1\<close> to \<open>OP_DATA_75\<close> and
  \<open>OP_PUSHDATA1/2/4\<close> push a sub-slice of the script, every other opcode pushes
  nothing), and its \<open>IsCoinBaseTx\<close> is the test of the blockchain package: one
  input, whose previous outpoint has the zero hash and the index \<open>0xffffffff\<close>.
  The wire format is a toy: a raw block is a sequence of signature scripts, each
  behind one length byte; the first belongs to a coinbase, the others to payments.
  A transaction's hash is the list of its signature scripts, so that two
  transactions with different scripts have different hashes, as with a real hash.
\<close>

fun read_pushes :: "nat \<Rightarrow> byte list \<Rightarrow> string + slice list" where
  "read_pushes off [] = Inr []"
| "read_pushes off (opc # rest) =
     (if opc = 0 then map_sum id (Cons (Own [])) (read_pushes (off + 1) rest)
      else if unat opc \<le> 75 then
        (if length rest < unat opc then Inl ''opcode requires more bytes than the script has''
         else map_sum id (Cons (Sub (off + 1) (unat opc)))
                (read_pushes (off + 1 + unat opc) (drop (unat opc) rest)))
      else if unat opc \<le> 78 then
        (let k = 2 ^ (unat opc - 76) in
         if length rest < k then Inl ''opcode requires more bytes than the script has''
         else
           let n = le_nat (take k rest) in
           if length rest - k < n then Inl ''opcode pushes more bytes than the script has''
           else map_sum id (Cons (Sub (off + 1 + k) n))
                  (read_pushes (off + 1 + k + n) (drop (k + n) rest)))
      else read_pushes (off + 1) rest)"

definition coinbase_tx :: "byte list \<Rightarrow> MsgTx" where
  "coinbase_tx script =
     \<lparr>Version = 1,
      TxIns = [\<lparr>PreviousOutPoint = \<lparr>PrevHash = replicate 32 0, PrevIndex = 0xFFFFFFFF\<rparr>,
                SignatureScript = script, Witness = [], Sequence = 0xFFFFFFFF\<rparr>],
      TxOuts = [\<lparr>Value = 5000000000, PkScript = [0x51]\<rparr>],
      LockTime = 0\<rparr>"

definition payment_tx :: "byte list \<Rightarrow> MsgTx" where
  "payment_tx script =
     \<lparr>Version = 2,
      TxIns = [\<lparr>PreviousOutPoint = \<lparr>PrevHash = replicate 32 1, PrevIndex = 0\<rparr>,
                SignatureScript = script, Witness = [], Sequence = 0xFFFFFFFE\<rparr>],
      TxOuts = [\<lparr>Value = 10000000, PkScript = [0x51]\<rparr>],
      LockTime = 0\<rparr>"

definition toy_header :: BlockHeader where
  "toy_header =
     \<lparr>HeaderVersion = 0x20000000, PrevBlock = replicate 32 7, MerkleRoot = replicate 32 9,
      Timestamp = 1580000000, Bits = 0x207FFFFF, Nonce = 2\<rparr>"

fun toy_scripts :: "byte list \<Rightarrow> byte list list option" where
  "toy_scripts [] = Some []"
| "toy_scripts (n # rest) =
     (if length rest < unat n then None
      else map_option (Cons (take (unat n) rest)) (toy_scripts (drop (unat n) rest)))"

definition toy_BtcDecode :: "byte list \<Rightarrow> string + MsgBlock" where
  "toy_BtcDecode raw =
     (case toy_scripts raw of
        None \<Rightarrow> Inl ''unexpected EOF''
      | Some [] \<Rightarrow> Inr \<lparr>Header = toy_header, Transactions = []\<rparr>
      | Some (c # ps) \<Rightarrow>
          Inr \<lparr>Header = toy_header, Transactions = coinbase_tx c # map payment_tx ps\<rparr>)"

definition toy_Deserialize :: "byte list \<Rightarrow> string + MsgTx" where
  "toy_Deserialize raw =
     (case raw of
        [] \<Rightarrow> Inl ''EOF''
      | n # rest \<Rightarrow>
          if length rest < unat n then Inl ''unexpected EOF''
          else Inr (payment_tx (take (unat n) rest)))"

definition toy_IsCoinBaseTx :: "MsgTx \<Rightarrow> bool" where
  "toy_IsCoinBaseTx t =
     (case TxIns t of
        [txin] \<Rightarrow> PrevIndex (PreviousOutPoint txin) = 0xFFFFFFFF
                 \<and> PrevHash (PreviousOutPoint txin) = replicate 32 0
      | _ \<Rightarrow> False)"

definition toy :: lib where
  "toy =
     \<lparr>Deserialize = toy_Deserialize,
      BtcDecode = toy_BtcDecode,
      TxHash = (\<lambda>t. concat (map SignatureScript (TxIns t))),
      BlockHash = MerkleRoot,
      SerializeSize = (\<lambda>t. 60 + int (length (concat (map SignatureScript (TxIns t))))),
      SerializeSizeStripped = (\<lambda>t. 60 + int (length (concat (map SignatureScript (TxIns t))))),
      IsCoinBaseTx = toy_IsCoinBaseTx,
      PushedData = read_pushes 0,
      NewHashFromArray = id\<rparr>"

text \<open>
  A world for \<open>NewStorage\<close>: a store written at schema version 4, a file that is no
  database, and a database without tables.
\<close>

definition store_v4 :: database where
  "store_v4 =
     [''config'' \<mapsto> [[Scans 4]],
      ''transaction'' \<mapsto> [[Scans 1, NoScan, Scans 1580000000, NoScan, Scans 10000, Scans 248]],
      ''block'' \<mapsto> [],
      ''transaction_block'' \<mapsto> []]"

definition example_world :: world where
  "example_world =
     \<lparr>files = (\<lambda>path.
         if path = ''old.db'' then Exists (Sqlite store_v4)
         else if path = ''notes.txt'' then Exists NotSqlite
         else if path = ''empty.db'' then Exists (Sqlite Map.empty)
         else NotExist),
      sqlOpen = (\<lambda>path. None)\<rparr>"

section \<open>Lemmas\<close>

subsection \<open>Little-endian reading\<close>

lemma bit_below_power: "(a::nat) < 2 ^ k \<Longrightarrow> bit a n \<Longrightarrow> n < k"
  by (metis bit_take_bit_iff take_bit_nat_eq_self)

lemma or_push_bit_nat: "(a::nat) < 2 ^ k \<Longrightarrow> a OR push_bit k b = a + 2 ^ k * b"
proof -
  assume a: "a < 2 ^ k"
  have "a + push_bit k b = a OR push_bit k b"
    by (rule disjunctive_add) (use a in \<open>auto simp: bit_push_bit_iff dest: bit_below_power\<close>)
  then show ?thesis by (simp add: push_bit_eq_mult mult.commute)
qed

lemma unat_byte_less: "unat (b::byte) < 256"
  using unsigned_less [of b, where 'a = nat] by simp

lemma unat_ucast_byte:
  "8 \<le> LENGTH('a::len) \<Longrightarrow> unat (ucast (b::byte) :: 'a word) = unat b"
proof -
  assume "8 \<le> LENGTH('a)"
  then have "(2::nat) ^ 8 \<le> 2 ^ LENGTH('a)" by (intro power_increasing) auto
  with unat_byte_less [of b] have "unat b < 2 ^ LENGTH('a)" by simp
  then show ?thesis by (simp add: unsigned_ucast_eq take_bit_nat_eq_self)
qed

lemma unat_or_push_byte:
  fixes w :: "'a::len word" and b :: byte
  assumes w: "unat w < 2 ^ k" and k: "k + 8 \<le> LENGTH('a)"
  shows "unat (w OR push_bit k (ucast b)) = unat w + 2 ^ k * unat b"
    and "unat (w OR push_bit k (ucast b)) < 2 ^ (k + 8)"
proof -
  have "2 ^ k * unat b < 2 ^ k * 2 ^ 8"
    using unat_byte_less [of b] by simp
  then have lt: "2 ^ k * unat b < 2 ^ (k + 8)" by (simp add: power_add)
  also have "(2::nat) ^ (k + 8) \<le> 2 ^ LENGTH('a)" using k by (intro power_increasing) auto
  finally have "take_bit LENGTH('a) (push_bit k (unat b)) = 2 ^ k * unat b"
    by (simp add: push_bit_eq_mult mult.commute take_bit_nat_eq_self)
  moreover have "unat (ucast b :: 'a word) = unat b"
    using k by (intro unat_ucast_byte) simp
  ultimately have p: "unat (push_bit k (ucast b) :: 'a word) = push_bit k (unat b)"
    unfolding unsigned_push_bit_eq by (simp add: push_bit_eq_mult mult.commute)
  show eq: "unat (w OR push_bit k (ucast b)) = unat w + 2 ^ k * unat b"
    unfolding unsigned_or_eq p using w by (rule or_push_bit_nat)
  have "unat w + 2 ^ k * unat b < 2 ^ k + 2 ^ k * unat b" using w by simp
  also have "\<dots> = 2 ^ k * Suc (unat b)" by simp
  also have "\<dots> \<le> 2 ^ k * 2 ^ 8" using unat_byte_less [of b] by (intro mult_le_mono2) simp
  finally show "unat (w OR push_bit k (ucast b)) < 2 ^ (k + 8)"
    unfolding eq by (simp add: power_add)
qed

lemma Uint32_value:
  "unat (ucast (b0::byte) OR push_bit 8 (ucast (b1::byte))
         OR push_bit 16 (ucast (b2::byte)) OR push_bit 24 (ucast (b3::byte)) :: 32 word)
   = le_nat [b0, b1, b2, b3]"
proof -
  define w0 where "w0 = (ucast b0 :: 32 word)"
  define w1 where "w1 = w0 OR push_bit 8 (ucast b1)"
  define w2 where "w2 = w1 OR push_bit 16 (ucast b2)"
  define w3 where "w3 = w2 OR push_bit 24 (ucast b3)"
  have 0: "unat w0 = unat b0" "unat w0 < 2 ^ 8"
    using unat_byte_less [of b0] by (simp_all add: w0_def unat_ucast_byte)
  have 1: "unat w1 = unat w0 + 2 ^ 8 * unat b1" "unat w1 < 2 ^ 16"
    using unat_or_push_byte [of w0 8 b1] 0(2) by (simp_all add: w1_def)
  have 2: "unat w2 = unat w1 + 2 ^ 16 * unat b2" "unat w2 < 2 ^ 24"
    using unat_or_push_byte [of w1 16 b2] 1(2) by (simp_all add: w2_def)
  have 3: "unat w3 = unat w2 + 2 ^ 24 * unat b3"
    using unat_or_push_byte [of w2 24 b3] 2(2) by (simp_all add: w3_def)
  have "unat w3 = le_nat [b0, b1, b2, b3]"
    using 0 1 2 3 by simp
  then show ?thesis
    by (simp add: w3_def w2_def w1_def w0_def or.assoc)
qed

lemma Uint64_value:
  "unat (ucast (b0::byte) OR push_bit 8 (ucast (b1::byte))
         OR push_bit 16 (ucast (b2::byte)) OR push_bit 24 (ucast (b3::byte))
         OR push_bit 32 (ucast (b4::byte)) OR push_bit 40 (ucast (b5::byte))
         OR push_bit 48 (ucast (b6::byte)) OR push_bit 56 (ucast (b7::byte)) :: 64 word)
   = le_nat [b0, b1, b2, b3, b4, b5, b6, b7]"
proof -
  define w0 where "w0 = (ucast b0 :: 64 word)"
  define w1 where "w1 = w0 OR push_bit 8 (ucast b1)"
  define w2 where "w2 = w1 OR push_bit 16 (ucast b2)"
  define w3 where "w3 = w2 OR push_bit 24 (ucast b3)"
  define w4 where "w4 = w3 OR push_bit 32 (ucast b4)"
  define w5 where "w5 = w4 OR push_bit 40 (ucast b5)"
  define w6 where "w6 = w5 OR push_bit 48 (ucast b6)"
  define w7 where "w7 = w6 OR push_bit 56 (ucast b7)"
  have 0: "unat w0 = unat b0" "unat w0 < 2 ^ 8"
    using unat_byte_less [of b0] by (simp_all add: w0_def unat_ucast_byte)
  have 1: "unat w1 = unat w0 + 2 ^ 8 * unat b1" "unat w1 < 2 ^ 16"
    using unat_or_push_byte [of w0 8 b1] 0(2) by (simp_all add: w1_def)
  have 2: "unat w2 = unat w1 + 2 ^ 16 * unat b2" "unat w2 < 2 ^ 24"
    using unat_or_push_byte [of w1 16 b2] 1(2) by (simp_all add: w2_def)
  have 3: "unat w3 = unat w2 + 2 ^ 24 * unat b3" "unat w3 < 2 ^ 32"
    using unat_or_push_byte [of w2 24 b3] 2(2) by (simp_all add: w3_def)
  have 4: "unat w4 = unat w3 + 2 ^ 32 * unat b4" "unat w4 < 2 ^ 40"
    using unat_or_push_byte [of w3 32 b4] 3(2) by (simp_all add: w4_def)
  have 5: "unat w5 = unat w4 + 2 ^ 40 * unat b5" "unat w5 < 2 ^ 48"
    using unat_or_push_byte [of w4 40 b5] 4(2) by (simp_all add: w5_def)
  have 6: "unat w6 = unat w5 + 2 ^ 48 * unat b6" "unat w6 < 2 ^ 56"
    using unat_or_push_byte [of w5 48 b6] 5(2) by (simp_all add: w6_def)
  have 7: "unat w7 = unat w6 + 2 ^ 56 * unat b7"
    using unat_or_push_byte [of w6 56 b7] 6(2) by (simp_all add: w7_def)
  have "unat w7 = le_nat [b0, b1, b2, b3, b4, b5, b6, b7]"
    unfolding 7 6(1) 5(1) 4(1) 3(1) 2(1) 1(1) 0(1) by simp
  then show ?thesis
    by (simp add: w7_def w6_def w5_def w4_def w3_def w2_def w1_def w0_def or.assoc)
qed


lemma Uint32_long:
  assumes "4 \<le> length b"
  shows "\<exists>w. Uint32 b = Inr w \<and> unat w = le_nat (take 4 b)"
proof -
  from assms obtain b0 b1 b2 b3 rest where b: "b = b0 # b1 # b2 # b3 # rest"
    by (cases b; simp) (metis Suc_le_length_iff numeral_3_eq_3)
  show ?thesis
    unfolding b Uint32_def using Uint32_value [of b0 b1 b2 b3] by simp
qed

lemma Uint64_eight:
  assumes "length b = 8"
  shows "\<exists>w. Uint64 b = Inr w \<and> unat w = le_nat b"
proof -
  from assms obtain b0 b1 b2 b3 b4 b5 b6 b7 where b: "b = [b0, b1, b2, b3, b4, b5, b6, b7]"
    by (auto simp: length_Suc_conv eval_nat_numeral)
  show ?thesis
    unfolding b Uint64_def using Uint64_value [of b0 b1 b2 b3 b4 b5 b6 b7] by simp
qed

lemma le_nat_append_zeros: "le_nat (bs @ replicate k 0) = le_nat bs"
  by (induction bs) (simp_all, induction k, simp_all)

subsection \<open>The padding loop\<close>

lemma slice_len_append_byte:
  "slice_len (fst (append_byte script s v)) (snd (append_byte script s v)) = Suc (slice_len script s)"
  by (cases s) (auto simp: slice_len_def)

lemma slice_bytes_append_byte:
  "slice_bytes (fst (append_byte script s v)) (snd (append_byte script s v))
     = slice_bytes script s @ [v]"
proof (cases s)
  case (Sub off n)
  show ?thesis
  proof (cases "off + n < length script")
    case True
    then have "take (Suc n) (drop off (script[off + n := v]))
        = take n (drop off script) @ [v]"
      by (simp add: drop_update_swap take_Suc_conv_app_nth)
    with True Sub show ?thesis by simp
  next
    case False
    with Sub show ?thesis by simp
  qed
next
  case (Own bs)
  then show ?thesis by simp
qed

lemma length_append_byte: "length (fst (append_byte script s v)) = length script"
  by (cases s) auto

lemma pad_height_bytes:
  "slice_bytes (fst (pad_height script s)) (snd (pad_height script s))
     = slice_bytes script s @ replicate (4 - slice_len script s) 0"
proof (induction script s rule: pad_height.induct)
  case (1 script heightLE)
  show ?case
  proof (cases "slice_len script heightLE < 4")
    case True
    let ?script = "fst (append_byte script heightLE 0)"
    let ?s = "snd (append_byte script heightLE 0)"
    have step: "pad_height script heightLE = pad_height ?script ?s"
      using True by (subst pad_height.simps) simp
    have "slice_bytes (fst (pad_height ?script ?s)) (snd (pad_height ?script ?s))
        = slice_bytes ?script ?s @ replicate (4 - slice_len ?script ?s) 0"
      using True by (rule "1.IH")
    also have "\<dots> = slice_bytes script heightLE @ [0] @ replicate (4 - Suc (slice_len script heightLE)) 0"
      by (simp add: slice_bytes_append_byte slice_len_append_byte)
    also have "[0] @ replicate (4 - Suc (slice_len script heightLE)) (0::byte)
        = replicate (Suc (4 - Suc (slice_len script heightLE))) 0"
      by simp
    also have "Suc (4 - Suc (slice_len script heightLE)) = 4 - slice_len script heightLE"
      using True by simp
    finally show ?thesis unfolding step .
  next
    case False
    then show ?thesis by (subst (1 2) pad_height.simps) simp
  qed
qed

lemma pad_height_length: "length (fst (pad_height script s)) = length script"
proof (induction script s rule: pad_height.induct)
  case (1 script heightLE)
  then show ?case
    by (subst pad_height.simps) (simp add: length_append_byte)
qed

lemma pad_height_unchanged:
  "4 \<le> slice_len script s \<Longrightarrow> fst (pad_height script s) = script"
  by (subst pad_height.simps) simp

lemma padded_value:
  "le_nat (take 4 (bs @ replicate (4 - length bs) 0)) = le_nat (take 4 bs)"
proof (cases "4 \<le> length bs")
  case True
  then show ?thesis by simp
next
  case False
  then show ?thesis by (simp add: le_nat_append_zeros)
qed

subsection \<open>parseHeight\<close>

lemma parseHeight_two:
  assumes "PushedData L (SignatureScript txin) = Inr data" and "length data = 2"
  shows "parseHeight L txin =
           Returned (int (le_nat (take 4 (slice_bytes (SignatureScript txin) (data ! 0)))),
                     fst (pad_height (SignatureScript txin) (data ! 0)))"
proof -
  let ?p = "pad_height (SignatureScript txin) (data ! 0)"
  let ?bs = "slice_bytes (SignatureScript txin) (data ! 0)"
  have bytes: "slice_bytes (fst ?p) (snd ?p) = ?bs @ replicate (4 - length ?bs) 0"
    by (simp add: pad_height_bytes slice_len_def)
  then have "4 \<le> length (slice_bytes (fst ?p) (snd ?p))" by simp
  then obtain w where w: "Uint32 (slice_bytes (fst ?p) (snd ?p)) = Inr w"
      "unat w = le_nat (take 4 (slice_bytes (fst ?p) (snd ?p)))"
    using Uint32_long by blast
  have "uint w = int (unat w)" by simp
  then have "uint w = int (le_nat (take 4 ?bs))"
    using w(2) unfolding bytes padded_value by simp
  with assms w(1) show ?thesis
    by (simp add: parseHeight_def Let_def)
qed

lemma parseHeight_cases:
  "parseHeight L txin =
     (case PushedData L (SignatureScript txin) of
        Inl e \<Rightarrow> Failed (PushedDataError e)
      | Inr data \<Rightarrow>
          if length data \<noteq> 2 then Failed (UnexpectedCount (length data))
          else Returned (int (le_nat (take 4 (slice_bytes (SignatureScript txin) (data ! 0)))),
                         fst (pad_height (SignatureScript txin) (data ! 0))))"
proof (cases "PushedData L (SignatureScript txin)")
  case (Inl e)
  then show ?thesis by (simp add: parseHeight_def)
next
  case (Inr data)
  show ?thesis
  proof (cases "length data = 2")
    case True
    with Inr show ?thesis by (simp add: parseHeight_two)
  next
    case False
    with Inr show ?thesis by (simp add: parseHeight_def)
  qed
qed

lemma le_nat_bound: "le_nat bs < 256 ^ length bs"
proof (induction bs)
  case Nil
  show ?case by simp
next
  case (Cons b bs)
  have "unat b + 256 * le_nat bs < 256 + 256 * le_nat bs"
    using unat_byte_less [of b] by simp
  also have "\<dots> = 256 * Suc (le_nat bs)" by simp
  also have "\<dots> \<le> 256 * 256 ^ length bs"
    using Cons.IH by (intro mult_le_mono2) simp
  finally show ?case by simp
qed

lemma parseHeight_range:
  assumes "parseHeight L txin = Returned r"
  shows "0 \<le> fst r \<and> fst r < 2 ^ 32"
proof -
  from assms obtain data where "fst r = int (le_nat (take 4 (slice_bytes (SignatureScript txin) (data ! 0))))"
    by (auto simp: parseHeight_cases split: sum.splits if_splits)
  moreover have "le_nat (take 4 (slice_bytes (SignatureScript txin) (data ! 0))) < 256 ^ 4"
    by (rule less_le_trans [OF le_nat_bound], rule power_increasing) simp_all
  ultimately show ?thesis by simp
qed

lemma parseHeight_no_panic: "parseHeight L txin \<noteq> Panicked p"
  by (simp add: parseHeight_cases split: sum.splits)


subsection \<open>The loop over the transactions\<close>

lemma parseBlock_loop_length:
  "parseBlock_loop L txs h acc = Returned r \<Longrightarrow> length (snd r) = length acc + length txs"
proof (induction txs arbitrary: h acc)
  case Nil
  then show ?case by auto
next
  case (Cons t ts)
  then show ?case
    by (fastforce split: if_splits list.splits outcome.splits)
qed

lemma parseBlock_loop_prefix:
  "parseBlock_loop L txs h acc = Returned r \<Longrightarrow> take (length acc) (snd r) = acc"
proof (induction txs arbitrary: h acc)
  case Nil
  then show ?case by auto
next
  case (Cons t ts)
  show ?case
  proof (cases "IsCoinBaseTx L t")
    case False
    with Cons.prems have "parseBlock_loop L ts h (acc @ [NewHashFromArray L (TxHash L t)]) = Returned r"
      by simp
    from Cons.IH [OF this] have "take (Suc (length acc)) (snd r) = acc @ [NewHashFromArray L (TxHash L t)]"
      by simp
    then have "take (length acc) (take (Suc (length acc)) (snd r)) = acc" by simp
    then show ?thesis by (simp add: min_def)
  next
    case True
    with Cons.prems obtain txin ins r' where
      loop: "parseBlock_loop L ts (fst r')
         (acc @ [NewHashFromArray L (TxHash L (t\<lparr>TxIns := txin\<lparr>SignatureScript := snd r'\<rparr> # ins\<rparr>))]) = Returned r"
      by (auto split: list.splits outcome.splits)
    from Cons.IH [OF this]
    have "take (length acc) (take (Suc (length acc)) (snd r)) = acc" by simp
    then show ?thesis by (simp add: min_def)
  qed
qed

lemma parseBlock_loop_height:
  "parseBlock_loop L txs h acc = Returned r \<Longrightarrow>
     (fst r = h \<and> (\<forall>t \<in> set txs. \<not> IsCoinBaseTx L t)) \<or>
     (\<exists>t \<in> set txs. IsCoinBaseTx L t \<and>
        (\<exists>txin ins s. TxIns t = txin # ins \<and> parseHeight L txin = Returned (fst r, s)))"
proof (induction txs arbitrary: h acc)
  case Nil
  then show ?case by auto
next
  case (Cons t ts)
  show ?case
  proof (cases "IsCoinBaseTx L t")
    case False
    with Cons.prems have "parseBlock_loop L ts h (acc @ [NewHashFromArray L (TxHash L t)]) = Returned r"
      by simp
    from Cons.IH [OF this] False show ?thesis by auto
  next
    case True
    with Cons.prems obtain txin ins r' where
      t: "TxIns t = txin # ins" "parseHeight L txin = Returned r'" and
      loop: "parseBlock_loop L ts (fst r')
         (acc @ [NewHashFromArray L (TxHash L (t\<lparr>TxIns := txin\<lparr>SignatureScript := snd r'\<rparr> # ins\<rparr>))]) = Returned r"
      by (auto split: list.splits outcome.splits)
    from Cons.IH [OF loop] show ?thesis
    proof
      assume "fst r = fst r' \<and> (\<forall>t \<in> set ts. \<not> IsCoinBaseTx L t)"
      with t True have "IsCoinBaseTx L t \<and> TxIns t = txin # ins \<and> parseHeight L txin = Returned (fst r, snd r')"
        by simp
      then show ?thesis by auto
    next
      assume "\<exists>t \<in> set ts. IsCoinBaseTx L t \<and>
        (\<exists>txin ins s. TxIns t = txin # ins \<and> parseHeight L txin = Returned (fst r, s))"
      then show ?thesis by auto
    qed
  qed
qed

text \<open>A coinbase whose height cannot be extracted fails the loop.\<close>

lemma parseBlock_loop_fails:
  assumes "\<forall>t \<in> set txs. IsCoinBaseTx L t \<longrightarrow> TxIns t \<noteq> []"
    and "t \<in> set txs" and "IsCoinBaseTx L t" and "parseHeight L (hd (TxIns t)) = Failed e"
  shows "\<exists>e'. parseBlock_loop L txs h acc = Failed (ErrorParsingCoinbase e')"
  using assms
proof (induction txs arbitrary: h acc)
  case Nil
  then show ?case by simp
next
  case (Cons u us)
  show ?case
  proof (cases "IsCoinBaseTx L u")
    case False
    with Cons.prems have "t \<in> set us" by auto
    with Cons.IH Cons.prems False show ?thesis by simp
  next
    case True
    with Cons.prems obtain txin ins where u: "TxIns u = txin # ins"
      by (cases "TxIns u") auto
    show ?thesis
    proof (cases "parseHeight L txin")
      case (Returned r)
      with Cons.prems u have "t \<in> set us" by auto
      with Cons.IH Cons.prems True u Returned show ?thesis by simp
    next
      case (Failed e')
      with True u show ?thesis by simp
    next
      case (Panicked p)
      then show ?thesis by (simp add: parseHeight_no_panic)
    qed
  qed
qed

text \<open>When every coinbase yields the height \<open>hv\<close>, so does the loop.\<close>

lemma parseBlock_loop_succeeds:
  assumes "\<forall>t \<in> set txs. IsCoinBaseTx L t \<longrightarrow>
             TxIns t \<noteq> [] \<and> (\<exists>s. parseHeight L (hd (TxIns t)) = Returned (hv, s))"
  shows "\<exists>hashes. parseBlock_loop L txs h acc =
           Returned (if \<exists>t \<in> set txs. IsCoinBaseTx L t then hv else h, hashes)"
  using assms
proof (induction txs arbitrary: h acc)
  case Nil
  then show ?case by simp
next
  case (Cons u us)
  show ?case
  proof (cases "IsCoinBaseTx L u")
    case False
    with Cons.IH [of h "acc @ [NewHashFromArray L (TxHash L u)]"] Cons.prems
    show ?thesis by simp
  next
    case True
    with Cons.prems obtain txin ins s where u: "TxIns u = txin # ins"
        "parseHeight L txin = Returned (hv, s)"
      by (cases "TxIns u") auto
    from Cons.IH [of hv "acc @ [NewHashFromArray L (TxHash L (u\<lparr>TxIns := txin\<lparr>SignatureScript := s\<rparr> # ins\<rparr>))]"]
      Cons.prems
    obtain hashes where "parseBlock_loop L us hv
        (acc @ [NewHashFromArray L (TxHash L (u\<lparr>TxIns := txin\<lparr>SignatureScript := s\<rparr> # ins\<rparr>))])
      = Returned (if \<exists>t \<in> set us. IsCoinBaseTx L t then hv else hv, hashes)"
      by auto
    with True u show ?thesis by simp
  qed
qed


section \<open>The claims\<close>

text \<open>
  Claim C3.  For a raw transaction \<open>T\<close> that the wire format decodes and a fee field
  \<open>F\<close> of 8 bytes, \<open>parseTransaction\<close> on the two frames \<open>T @ F\<close> and \<open>seq\<close>
  returns a transaction whose fee is \<open>F\<close> read little-endian, whose id is the hash
  of the decoded transaction, and whose weight is three times the stripped size plus
  the full size.  (A raw transaction is never empty.)
\<close>

theorem parseTransaction_decodes:
  assumes "Deserialize L T = Inr wireTx" and "T \<noteq> []" and "length F = 8"
  shows "\<exists>tx. parseTransaction L firstSeen [T @ F, seq] = Returned tx
           \<and> unat (Fee tx) = le_nat F
           \<and> TxID tx = NewHashFromArray L (TxHash L wireTx)
           \<and> Weight tx = 3 * SerializeSizeStripped L wireTx + SerializeSize L wireTx
           \<and> FirstSeen tx = firstSeen"
proof -
  from assms(3) obtain fee where fee: "Uint64 F = Inr fee" "unat fee = le_nat F"
    using Uint64_eight by blast
  from assms(2) have "8 < length (T @ F)"
    using assms(3) by (cases T) simp_all
  with assms fee show ?thesis
    by (simp add: parseTransaction_def Let_def)
qed

theorem parseTransaction_decodes_witness:
  "Deserialize toy [2, 0xAA, 0xBB] = Inr (payment_tx [0xAA, 0xBB])
   \<and> (\<exists>tx. parseTransaction toy 1580000000 [[2, 0xAA, 0xBB] @ [0x10, 0x27, 0, 0, 0, 0, 0, 0], [7, 0, 0, 0]]
             = Returned tx
          \<and> unat (Fee tx) = 10000 \<and> TxID tx = [0xAA, 0xBB] \<and> Weight tx = 248
          \<and> FirstSeen tx = 1580000000)"
proof -
  have d: "Deserialize toy [2, 0xAA, 0xBB] = Inr (payment_tx [0xAA, 0xBB])"
    by (simp add: toy_def toy_Deserialize_def)
  have n: "[2, 0xAA, 0xBB] \<noteq> ([] :: byte list)" by simp
  have l: "length [0x10, 0x27, 0, 0, 0, 0, 0, 0 :: byte] = 8" by simp
  from parseTransaction_decodes [OF d n l, of 1580000000 "[7, 0, 0, 0]"] d
  show ?thesis
    by (simp add: toy_def payment_tx_def)
qed

text \<open>
  Claim C4.  \<open>parseTransaction\<close> returns an error for every payload whose frame count
  is not 2, and for every payload whose first frame has at most 8 bytes.
\<close>

theorem parseTransaction_rejects:
  assumes "length payload \<noteq> 2 \<or> length (payload ! 0) \<le> 8"
  shows "parseTransaction L firstSeen payload =
           Failed (if length payload \<noteq> 2 then UnexpectedPayloadLength (length payload)
                   else UnexpectedRawtxwithfeeLength)"
  using assms by (auto simp: parseTransaction_def Let_def)

theorem parseTransaction_rejects_witness:
  "parseTransaction toy 0 [[2, 0xAA, 0xBB, 0x10, 0x27, 0, 0, 0, 0, 0, 0]] = Failed (UnexpectedPayloadLength 1)
   \<and> parseTransaction toy 0 [[2, 0xAA, 0xBB, 0x10, 0x27, 0, 0, 0], [7, 0, 0, 0]] = Failed UnexpectedRawtxwithfeeLength
   \<and> parseTransaction toy 0 [] = Failed (UnexpectedPayloadLength 0)"
  using parseTransaction_rejects [of "[[2, 0xAA, 0xBB, 0x10, 0x27, 0, 0, 0, 0, 0, 0]]" toy 0]
    parseTransaction_rejects [of "[[2, 0xAA, 0xBB, 0x10, 0x27, 0, 0, 0], [7, 0, 0, 0]]" toy 0]
    parseTransaction_rejects [of "[]" toy 0]
  by simp


end
